theory Spec2Isabelle
  imports Main "HOL-Library.Sublist"
begin

section \<open>Python strings\<close>

text \<open>
  A Python \<open>str\<close> is a sequence of Unicode code points; \<open>len\<close> counts code points.
  A code point is modelled as a natural number and a string as a list of them.
  \<open>pystr\<close> reads an ASCII literal as such a string.
\<close>

type_synonym codepoint = nat
type_synonym pystr = "codepoint list"

definition pystr :: "string \<Rightarrow> pystr" where
  "pystr s = map of_char s"

text \<open>
  \<open>str.isspace\<close> for one code point, as \<open>str.strip()\<close> without argument uses it:
  the code points CPython classifies as whitespace.
\<close>

definition isspace :: "codepoint \<Rightarrow> bool" where
  "isspace c \<longleftrightarrow>
     (9 \<le> c \<and> c \<le> 13) \<or> (28 \<le> c \<and> c \<le> 32) \<or> c = 133 \<or> c = 160 \<or>
     c = 5760 \<or> (8192 \<le> c \<and> c \<le> 8202) \<or> c = 8232 \<or> c = 8233 \<or>
     c = 8239 \<or> c = 8287 \<or> c = 12288"

text \<open>\<open>s.strip()\<close>: leading and trailing whitespace removed.\<close>

definition strip :: "pystr \<Rightarrow> pystr" where
  "strip s = rev (dropWhile isspace (rev (dropWhile isspace s)))"

text \<open>
  Python slicing \<open>s[a:b]\<close> with integer bounds: a negative bound counts from the end,
  both bounds are clamped to \<open>0..len(s)\<close>, and the slice is empty when the bounds cross.
\<close>

definition slice_bound :: "nat \<Rightarrow> int \<Rightarrow> nat" where
  "slice_bound n i = (if i < 0 then nat (max 0 (i + int n)) else min (nat i) n)"

definition py_slice :: "'a list \<Rightarrow> int \<Rightarrow> int \<Rightarrow> 'a list" where
  "py_slice s a b =
     (let lo = slice_bound (length s) a; hi = slice_bound (length s) b
      in take (hi - lo) (drop lo s))"

text \<open>
  \<open>s.rfind(c)\<close> for a one-character \<open>c\<close>: the highest index at which \<open>c\<close> occurs,
  or \<open>-1\<close>. The scan runs left to right and remembers the last hit.
\<close>

fun rfind_from :: "codepoint \<Rightarrow> pystr \<Rightarrow> int \<Rightarrow> int \<Rightarrow> int" where
  "rfind_from c [] i best = best"
| "rfind_from c (x # xs) i best = rfind_from c xs (i + 1) (if x = c then i else best)"

definition rfind :: "pystr \<Rightarrow> codepoint \<Rightarrow> int" where
  "rfind s c = rfind_from c s 0 (- 1)"

section \<open>The float comparison of the sentence-boundary heuristic\<close>

text \<open>
  \<open>last_sentence_end > chunk_size * 0.7\<close> multiplies an \<open>int\<close> by a \<open>float\<close>: Python
  converts \<open>chunk_size\<close> to a double (round to nearest, ties to even), multiplies by
  the double nearest to 0.7, which is \<open>6305039478318694 / 2^53\<close>, rounds the product
  the same way, and compares the integer with that double exactly. All of it is integer
  arithmetic on values scaled by \<open>2^53\<close>. (For example \<open>90 * 0.7\<close> is
  \<open>62.99999999999999\<close>, so \<open>63 > 90 * 0.7\<close> holds.) The conversion raises
  OverflowError from \<open>2^1024\<close> on; that range is not modelled: the comparison is
  reached only when \<open>start + chunk_size < len(text)\<close>.
\<close>

fun bitlen :: "nat \<Rightarrow> nat" where
  "bitlen n = (if n = 0 then 0 else Suc (bitlen (n div 2)))"

declare bitlen.simps [simp del]

definition round53 :: "nat \<Rightarrow> nat" where
  "round53 n =
     (let k = bitlen n in
      if k \<le> 53 then n
      else
        let s = k - 53; q = n div 2 ^ s; r = n mod 2 ^ s; h = 2 ^ (s - 1)
        in (if r > h \<or> (r = h \<and> odd q) then q + 1 else q) * 2 ^ s)"

definition times_0_7_scaled :: "int \<Rightarrow> int" where
  "times_0_7_scaled n =
     (let m = int (round53 (round53 (nat \<bar>n\<bar>) * 6305039478318694))
      in if n < 0 then - m else m)"

definition exceeds_threshold :: "int \<Rightarrow> int \<Rightarrow> bool" where
  "exceeds_threshold last_sentence_end chunk_size \<longleftrightarrow>
     last_sentence_end * 2 ^ 53 > times_0_7_scaled chunk_size"

section \<open>DocumentProcessor\<close>

text \<open>
  The object holds the embedding model (used by \<open>create_embeddings\<close> only) and the two
  chunking defaults set by \<open>__init__\<close>.
\<close>

record processor =
  chunk_size :: int
  overlap :: int

definition DocumentProcessor :: processor where
  "DocumentProcessor = \<lparr> chunk_size = 500, overlap = 50 \<rparr>"

text \<open>
  One window of \<open>chunk_text\<close>: the slice \<open>text[start:end]\<close>, cut after the last
  sentence terminator when the window does not reach the end of the text and the
  terminator lies past the threshold.
\<close>

definition window_chunk :: "pystr \<Rightarrow> int \<Rightarrow> int \<Rightarrow> pystr" where
  "window_chunk text csize start =
     (let end = start + csize;
          chunk = py_slice text start end
      in if end < int (length text) then
           (let last_period = rfind chunk 46;
                last_exclaim = rfind chunk 33;
                last_question = rfind chunk 63;
                last_sentence_end = max (max last_period last_exclaim) last_question
            in if exceeds_threshold last_sentence_end csize
               then py_slice chunk 0 (last_sentence_end + 1)
               else chunk)
         else chunk)"

text \<open>
  The \<open>while\<close> loop of \<open>chunk_text\<close>, with the loop variables \<open>start\<close> and \<open>chunks\<close>
  as arguments. The loop need not terminate (for instance when \<open>overlap \<ge> chunk_size\<close>
  on a long text), so the result is an option: \<open>None\<close> is a loop that runs forever.
\<close>

partial_function (option) chunk_loop ::
  "pystr \<Rightarrow> int \<Rightarrow> int \<Rightarrow> int \<Rightarrow> pystr list \<Rightarrow> pystr list option" where
  "chunk_loop text csize ovl start chunks =
     (if start < int (length text) then
        (let chunks' = chunks @ [strip (window_chunk text csize start)];
             start' = (start + csize) - ovl
         in if start' \<ge> int (length text) then Some chunks'
            else chunk_loop text csize ovl start' chunks')
      else Some chunks)"

declare chunk_loop.simps [code]

text \<open>
  \<open>chunk_text(self, text, chunk_size=None, overlap=None)\<close>: the defaults come from
  the object; the loop's list is filtered by \<open>len(chunk.strip()) > 50\<close>.
\<close>

definition chunk_text ::
  "processor \<Rightarrow> pystr \<Rightarrow> int option \<Rightarrow> int option \<Rightarrow> pystr list option" where
  "chunk_text self text chunk_size_arg overlap_arg =
     (let csize = (case chunk_size_arg of None \<Rightarrow> chunk_size self | Some n \<Rightarrow> n);
          ovl = (case overlap_arg of None \<Rightarrow> overlap self | Some n \<Rightarrow> n)
      in map_option (filter (\<lambda>chunk. length (strip chunk) > 50))
           (chunk_loop text csize ovl 0 []))"


text \<open>
  Names for what the loop scans, used to state its properties: the number of iterations
  left when an iteration begins at \<open>start\<close>, the start of the \<open>k\<close>-th window, the
  \<open>k\<close>-th window \<open>text[start:start + chunk_size]\<close> before any cut, and the number of
  windows of a whole text.
\<close>

definition iters_from :: "pystr \<Rightarrow> int \<Rightarrow> int \<Rightarrow> int \<Rightarrow> nat" where
  "iters_from text csize ovl start =
     nat ((int (length text) - start + (csize - ovl) - 1) div (csize - ovl))"

definition window_start :: "int \<Rightarrow> int \<Rightarrow> nat \<Rightarrow> int" where
  "window_start csize ovl k = int k * (csize - ovl)"

definition window :: "pystr \<Rightarrow> int \<Rightarrow> int \<Rightarrow> nat \<Rightarrow> pystr" where
  "window text csize ovl k =
     py_slice text (window_start csize ovl k) (window_start csize ovl k + csize)"

definition num_windows :: "pystr \<Rightarrow> int \<Rightarrow> int \<Rightarrow> nat" where
  "num_windows text csize ovl = iters_from text csize ovl 0"

section \<open>Exceptions\<close>

text \<open>
  A raised exception is a value; the string is \<open>str(e)\<close>. \<open>AttributeError\<close> is the one
  exception the code itself can provoke (reading an attribute an object does not have);
  \<open>Raised\<close> stands for any exception of an external call (the embedding model, the
  Qdrant client, the LLM client). Logging is not modelled.
\<close>

datatype exn = AttributeError pystr | Raised pystr

fun exn_str :: "exn \<Rightarrow> pystr" where
  "exn_str (AttributeError m) = m"
| "exn_str (Raised m) = m"

section \<open>Documents and points\<close>

text \<open>
  A scraped document is a dict with the six keys the upload reads; the key \<open>type\<close> is
  the field \<open>doc_type\<close>. A point is the dict (local storage) or \<open>PointStruct\<close>
  (Qdrant) built for one chunk; its vector is \<open>embedding.tolist()\<close>, kept abstract.
\<close>

record document =
  url :: pystr
  title :: pystr
  content :: pystr
  source :: pystr
  scraped_date :: pystr
  doc_type :: pystr

record payload =
  p_content :: pystr
  p_title :: pystr
  p_source :: pystr
  p_scraped_date :: pystr
  p_type :: pystr
  p_url :: pystr
  chunk_index :: nat
  total_chunks :: nat
  original_id :: pystr

record 'v point =
  point_id :: pystr
  vector :: 'v
  payload :: payload

text \<open>\<open>str(i)\<close> for a non-negative integer: its decimal digits.\<close>

fun str_nat :: "nat \<Rightarrow> pystr" where
  "str_nat n = (if n < 10 then [48 + n] else str_nat (n div 10) @ [48 + n mod 10])"

declare str_nat.simps [simp del]

definition NAMESPACE_URL :: pystr where
  "NAMESPACE_URL = pystr ''6ba7b811-9dad-11d1-80b4-00c04fd430c8''"

definition VECTOR_COLLECTION_NAME :: pystr where
  "VECTOR_COLLECTION_NAME = pystr ''disaster_prep''"

section \<open>QdrantManager\<close>

text \<open>
  The remote service is a state \<open>'c\<close> that the client calls read and change; each call
  may raise. \<open>client = None\<close> is Python's \<open>self.client = None\<close> of the fallback.
\<close>

record ('c, 'v) qdrant_api =
  get_collections :: "'c \<Rightarrow> exn + pystr list"
  delete_collection :: "pystr \<Rightarrow> 'c \<Rightarrow> exn + 'c"
  create_collection_call :: "pystr \<Rightarrow> 'c \<Rightarrow> exn + 'c"
  upsert :: "pystr \<Rightarrow> 'v point list \<Rightarrow> 'c \<Rightarrow> exn + 'c"

record ('c, 'v) manager =
  client :: "'c option"
  use_local_storage :: bool
  embeddings_data :: "'v point list"

text \<open>
  \<open>QdrantManager.__init__\<close>: \<open>connect\<close> is the outcome of constructing the client;
  the connection test is \<open>get_collections\<close>. Any exception selects the local storage.
  With a connection the attribute \<open>embeddings_data\<close> is not assigned and never read; the
  record holds the empty list there.
\<close>

definition local_fallback :: "('c, 'v) manager" where
  "local_fallback = \<lparr> client = None, use_local_storage = True, embeddings_data = [] \<rparr>"

definition QdrantManager :: "('c, 'v) qdrant_api \<Rightarrow> exn + 'c \<Rightarrow> ('c, 'v) manager" where
  "QdrantManager api connect =
     (case connect of
        Inl e \<Rightarrow> local_fallback
      | Inr c \<Rightarrow>
          (case get_collections api c of
             Inl e \<Rightarrow> local_fallback
           | Inr names \<Rightarrow>
               \<lparr> client = Some c, use_local_storage = False, embeddings_data = [] \<rparr>))"

definition create_collection ::
  "('c, 'v) qdrant_api \<Rightarrow> ('c, 'v) manager \<Rightarrow> exn + ('c, 'v) manager" where
  "create_collection api self =
     (if use_local_storage self then Inr (self\<lparr> embeddings_data := [] \<rparr>)
      else
        (case client self of
           None \<Rightarrow> Inl (AttributeError (pystr ''get_collections''))
         | Some c \<Rightarrow>
             (case get_collections api c of
                Inl e \<Rightarrow> Inl e
              | Inr collection_names \<Rightarrow>
                  (case (if VECTOR_COLLECTION_NAME \<in> set collection_names
                         then delete_collection api VECTOR_COLLECTION_NAME c
                         else Inr c) of
                     Inl e \<Rightarrow> Inl e
                   | Inr c' \<Rightarrow>
                       (case create_collection_call api VECTOR_COLLECTION_NAME c' of
                          Inl e \<Rightarrow> Inl e
                        | Inr c'' \<Rightarrow> Inr (self\<lparr> client := Some c'' \<rparr>))))))"

text \<open>
  \<open>_upload_chunks_local\<close>: the loop over \<open>enumerate(zip(chunks, embeddings))\<close> appends
  one point per iteration to \<open>self.embeddings_data\<close>. \<open>uuid5\<close> is
  \<open>str(uuid.uuid5(namespace, name))\<close> of the standard library, a parameter.
\<close>

definition upload_chunks_local ::
  "(pystr \<Rightarrow> pystr \<Rightarrow> pystr) \<Rightarrow> ('c, 'v) manager \<Rightarrow> document \<Rightarrow> pystr list \<Rightarrow> 'v list
     \<Rightarrow> ('c, 'v) manager" where
  "upload_chunks_local uuid5 self doc chunks embeddings =
     foldl (\<lambda>self (i, chunk, embedding).
        let point_id_string = url doc @ pystr ''#'' @ str_nat i;
            pid = uuid5 NAMESPACE_URL point_id_string;
            point_data = \<lparr> point_id = pid, vector = embedding,
              payload = \<lparr> p_content = chunk, p_title = title doc, p_source = source doc,
                p_scraped_date = scraped_date doc, p_type = doc_type doc, p_url = url doc,
                chunk_index = i, total_chunks = length chunks,
                original_id = point_id_string \<rparr> \<rparr>
        in self\<lparr> embeddings_data := embeddings_data self @ [point_data] \<rparr>)
       self (enumerate 0 (zip chunks embeddings))"

text \<open>
  \<open>_upload_chunks_qdrant\<close>: the loop builds the list \<open>points\<close>, then one \<open>upsert\<close>
  sends it; an exception of the upsert is raised again.
\<close>

definition qdrant_points ::
  "(pystr \<Rightarrow> pystr \<Rightarrow> pystr) \<Rightarrow> document \<Rightarrow> pystr list \<Rightarrow> 'v list \<Rightarrow> 'v point list" where
  "qdrant_points uuid5 doc chunks embeddings =
     foldl (\<lambda>points (i, chunk, embedding).
        let point_id_string = url doc @ pystr ''#'' @ str_nat i;
            pid = uuid5 NAMESPACE_URL point_id_string;
            point = \<lparr> point_id = pid, vector = embedding,
              payload = \<lparr> p_content = chunk, p_title = title doc, p_source = source doc,
                p_scraped_date = scraped_date doc, p_type = doc_type doc, p_url = url doc,
                chunk_index = i, total_chunks = length chunks,
                original_id = point_id_string \<rparr> \<rparr>
        in points @ [point])
       [] (enumerate 0 (zip chunks embeddings))"

definition upload_chunks_qdrant ::
  "('c, 'v) qdrant_api \<Rightarrow> (pystr \<Rightarrow> pystr \<Rightarrow> pystr) \<Rightarrow> ('c, 'v) manager \<Rightarrow> document
     \<Rightarrow> pystr list \<Rightarrow> 'v list \<Rightarrow> exn + ('c, 'v) manager" where
  "upload_chunks_qdrant api uuid5 self doc chunks embeddings =
     (let points = qdrant_points uuid5 doc chunks embeddings
      in case client self of
           None \<Rightarrow> Inl (AttributeError (pystr ''upsert''))
         | Some c \<Rightarrow>
             (case upsert api VECTOR_COLLECTION_NAME points c of
                Inl e \<Rightarrow> Inl e
              | Inr c' \<Rightarrow> Inr (self\<lparr> client := Some c' \<rparr>)))"

definition upload_chunks ::
  "('c, 'v) qdrant_api \<Rightarrow> (pystr \<Rightarrow> pystr \<Rightarrow> pystr) \<Rightarrow> ('c, 'v) manager \<Rightarrow> document
     \<Rightarrow> pystr list \<Rightarrow> 'v list \<Rightarrow> exn + ('c, 'v) manager" where
  "upload_chunks api uuid5 self doc chunks embeddings =
     (if length chunks \<noteq> length embeddings then Inr self
      else if use_local_storage self
        then Inr (upload_chunks_local uuid5 self doc chunks embeddings)
        else upload_chunks_qdrant api uuid5 self doc chunks embeddings)"

text \<open>
  The files the program touches: the scraper's output, read by \<open>main\<close>, and the local
  storage file, written by \<open>save_local_storage\<close> as the JSON list of the points
  (\<open>None\<close>: the file does not exist).
\<close>

record 'v files =
  data_file :: "document list option"
  storage_file :: "'v point list option"

definition save_local_storage :: "('c, 'v) manager \<Rightarrow> 'v files \<Rightarrow> 'v files" where
  "save_local_storage self fs =
     (if use_local_storage self \<and> embeddings_data self \<noteq> []
      then fs\<lparr> storage_file := Some (embeddings_data self) \<rparr>
      else fs)"

section \<open>The ingestion run\<close>

text \<open>
  \<open>create_embeddings\<close>: \<open>encode\<close> is \<open>self.model.encode\<close>, which may raise.
\<close>

definition create_embeddings ::
  "(pystr list \<Rightarrow> exn + 'v list) \<Rightarrow> pystr list \<Rightarrow> exn + 'v list" where
  "create_embeddings encode texts = (if texts = [] then Inr [] else encode texts)"

text \<open>
  How \<open>main\<close> ends: it returns early because the data file is missing, it runs to its
  last line with the manager and the chunk count it has then, or an exception leaves it,
  with the manager as it is at that moment.
\<close>

datatype ('c, 'v) outcome =
  NoDataFile
| Completed "('c, 'v) manager" nat
| Uncaught exn "('c, 'v) manager"

text \<open>
  The \<open>for\<close> loop of \<open>main\<close> over the documents. No call in it is inside a \<open>try\<close>.
  \<open>chunk_text\<close> is called with its defaults; \<open>None\<close> is a chunking loop that never
  returns. \<open>count\<close> is the variable \<open>total_chunks\<close>.
\<close>

fun process_documents ::
  "('c, 'v) qdrant_api \<Rightarrow> (pystr \<Rightarrow> pystr \<Rightarrow> pystr) \<Rightarrow> (pystr list \<Rightarrow> exn + 'v list)
     \<Rightarrow> processor \<Rightarrow> document list \<Rightarrow> ('c, 'v) manager \<Rightarrow> nat \<Rightarrow> ('c, 'v) outcome option" where
  "process_documents api uuid5 encode proc [] qdrant_manager count = 
     Some (Completed qdrant_manager count)"
| "process_documents api uuid5 encode proc (doc # docs) qdrant_manager count =
     (case chunk_text proc (content doc) None None of
        None \<Rightarrow> None
      | Some chunks \<Rightarrow>
          if chunks = [] then process_documents api uuid5 encode proc docs qdrant_manager count
          else
            (case create_embeddings encode chunks of
               Inl e \<Rightarrow> Some (Uncaught e qdrant_manager)
             | Inr chunk_embeddings \<Rightarrow>
                 (case upload_chunks api uuid5 qdrant_manager doc chunks chunk_embeddings of
                    Inl e \<Rightarrow> Some (Uncaught e qdrant_manager)
                  | Inr qdrant_manager' \<Rightarrow>
                      process_documents api uuid5 encode proc docs qdrant_manager'
                        (count + length chunks))))"

text \<open>
  \<open>main\<close>: the files come in and go out; \<open>main\<close> reads the data file and writes none.
\<close>

definition main ::
  "('c, 'v) qdrant_api \<Rightarrow> (pystr \<Rightarrow> pystr \<Rightarrow> pystr) \<Rightarrow> (pystr list \<Rightarrow> exn + 'v list)
     \<Rightarrow> exn + 'c \<Rightarrow> 'v files \<Rightarrow> ('v files \<times> ('c, 'v) outcome) option" where
  "main api uuid5 encode connect fs =
     (case data_file fs of
        None \<Rightarrow> Some (fs, NoDataFile)
      | Some documents \<Rightarrow>
          (let proc = DocumentProcessor;
               qdrant_manager = QdrantManager api connect
           in case create_collection api qdrant_manager of
                Inl e \<Rightarrow> Some (fs, Uncaught e qdrant_manager)
              | Inr qdrant_manager' \<Rightarrow>
                  map_option (Pair fs)
                    (process_documents api uuid5 encode proc documents qdrant_manager' 0)))"

section \<open>The query application\<close>

text \<open>
  An attribute holds \<open>None\<close> or an object. \<open>__init__\<close> assigns \<open>embedding_model\<close>,
  \<open>qdrant_client\<close> and \<open>groq_client\<close>; it does not assign \<open>llm\<close>, which only
  \<open>setup_clients\<close> may assign. The field \<open>llm\<close> is therefore an option: \<open>None\<close> is an
  object without that attribute, whose read raises \<open>AttributeError\<close>.
\<close>

datatype 'a pyval = PyNone | Obj 'a

record ('m, 'c, 'l) app =
  embedding_model :: "'m pyval"
  qdrant_client :: "'c pyval"
  groq_client :: "unit pyval"
  llm :: "'l pyval option"

text \<open>
  A search result carries a payload dict and a score; a retrieved context is the dict
  \<open>retrieve_context\<close> builds from it.
\<close>

record 's hit =
  hit_payload :: "pystr \<Rightarrow> pystr option"
  hit_score :: 's

record 's retrieved_context =
  ctx_content :: pystr
  ctx_source :: pystr
  ctx_title :: pystr
  ctx_url :: pystr
  ctx_score :: 's

text \<open>What the page shows, one constructor for each place that writes to it.\<close>

datatype 's ui_event =
  Success_groq_connected
| Error_groq_key
| Error_initializing exn
| Error_retrieving exn
| Retrieved_context "'s retrieved_context list"
| Answer pystr
| Sources_referenced "pystr set"
| Warning_no_information
| Info_get_started

definition RETRIEVER_K :: nat where
  "RETRIEVER_K = 5"

text \<open>Truth value of \<open>os.getenv(...)\<close>: \<open>None\<close> and the empty string are false.\<close>

definition truthy :: "pystr option \<Rightarrow> bool" where
  "truthy v = (case v of None \<Rightarrow> False | Some s \<Rightarrow> s \<noteq> [])"

text \<open>
  \<open>setup_clients\<close>: one \<open>try\<close> around everything. \<open>load_model\<close> is the outcome of
  \<open>SentenceTransformer(EMBEDDING_MODEL)\<close>, \<open>make_qdrant\<close> is \<open>QdrantClient\<close> with or
  without an API key, \<open>make_llm\<close> is \<open>ChatGroq\<close> with the key.
\<close>

definition setup_clients ::
  "exn + 'm \<Rightarrow> (pystr option \<Rightarrow> exn + 'c) \<Rightarrow> (pystr \<Rightarrow> exn + 'l) \<Rightarrow> pystr option \<Rightarrow> pystr option
     \<Rightarrow> ('m, 'c, 'l) app \<Rightarrow> ('m, 'c, 'l) app \<times> 's ui_event list" where
  "setup_clients load_model make_qdrant make_llm qdrant_api_key groq_api_key self =
     (case load_model of
        Inl e \<Rightarrow> (self, [Error_initializing e])
      | Inr m \<Rightarrow>
          (let self1 = self\<lparr> embedding_model := Obj m \<rparr>
           in case make_qdrant (if truthy qdrant_api_key then qdrant_api_key else None) of
                Inl e \<Rightarrow> (self1, [Error_initializing e])
              | Inr c \<Rightarrow>
                  (let self2 = self1\<lparr> qdrant_client := Obj c \<rparr>
                   in if truthy groq_api_key
                         \<and> groq_api_key \<noteq> Some (pystr ''your_groq_api_key_here'')
                      then
                        (case make_llm (the groq_api_key) of
                           Inl e \<Rightarrow> (self2, [Error_initializing e])
                         | Inr l \<Rightarrow> (self2\<lparr> llm := Some (Obj l) \<rparr>, [Success_groq_connected]))
                      else (self2, [Error_groq_key]))))"

definition DisasterRAGApp ::
  "exn + 'm \<Rightarrow> (pystr option \<Rightarrow> exn + 'c) \<Rightarrow> (pystr \<Rightarrow> exn + 'l) \<Rightarrow> pystr option \<Rightarrow> pystr option
     \<Rightarrow> ('m, 'c, 'l) app \<times> 's ui_event list" where
  "DisasterRAGApp load_model make_qdrant make_llm qdrant_api_key groq_api_key =
     setup_clients load_model make_qdrant make_llm qdrant_api_key groq_api_key
       \<lparr> embedding_model = PyNone, qdrant_client = PyNone, groq_client = PyNone, llm = None \<rparr>"

text \<open>\<open>payload.get(key, '')\<close>.\<close>

definition get_or_empty :: "(pystr \<Rightarrow> pystr option) \<Rightarrow> pystr \<Rightarrow> pystr" where
  "get_or_empty d key = (case d key of None \<Rightarrow> [] | Some v \<Rightarrow> v)"

text \<open>
  \<open>retrieve_context\<close>: \<open>encode\<close> is \<open>model.encode([query])[0]\<close>, \<open>search\<close> the Qdrant
  search with its limit. The whole body is in a \<open>try\<close>; the handler writes the error to
  the page and returns the empty list. The result is the returned list and what was
  written to the page.
\<close>

definition retrieve_context ::
  "('m \<Rightarrow> pystr \<Rightarrow> exn + 'v) \<Rightarrow> ('c \<Rightarrow> 'v \<Rightarrow> nat \<Rightarrow> exn + 's hit list) \<Rightarrow> ('m, 'c, 'l) app
     \<Rightarrow> pystr \<Rightarrow> nat \<Rightarrow> 's retrieved_context list \<times> 's ui_event list" where
  "retrieve_context encode search self query k =
     (case (case embedding_model self of
              PyNone \<Rightarrow> Inl (AttributeError (pystr ''encode''))
            | Obj m \<Rightarrow> encode m query) of
        Inl e \<Rightarrow> ([], [Error_retrieving e])
      | Inr query_embedding \<Rightarrow>
          (case (case qdrant_client self of
                   PyNone \<Rightarrow> Inl (AttributeError (pystr ''search''))
                 | Obj c \<Rightarrow> search c query_embedding k) of
             Inl e \<Rightarrow> ([], [Error_retrieving e])
           | Inr search_results \<Rightarrow>
               (map (\<lambda>result.
                   \<lparr> ctx_content = get_or_empty (hit_payload result) (pystr ''content''),
                     ctx_source = get_or_empty (hit_payload result) (pystr ''source''),
                     ctx_title = get_or_empty (hit_payload result) (pystr ''title''),
                     ctx_url = get_or_empty (hit_payload result) (pystr ''url''),
                     ctx_score = hit_score result \<rparr>) search_results, [])))"

text \<open>\<open>sep.join(parts)\<close>.\<close>

fun join :: "pystr \<Rightarrow> pystr list \<Rightarrow> pystr" where
  "join sep [] = []"
| "join sep [x] = x"
| "join sep (x # y # ys) = x @ sep @ join sep (y # ys)"

definition format_context :: "'s retrieved_context \<Rightarrow> pystr" where
  "format_context ctx =
     pystr ''Source: '' @ ctx_source ctx @ [10] @ pystr ''Title: '' @ ctx_title ctx @ [10]
     @ pystr ''Content: '' @ py_slice (ctx_content ctx) 0 500 @ pystr ''...''"

definition build_prompt :: "pystr \<Rightarrow> pystr \<Rightarrow> pystr" where
  "build_prompt context_text query =
     pystr ''You are a Disaster Preparedness & Response Assistant. Use ONLY context from FEMA, CDC, NOAA, Red Cross, WHO, UNDRR. If information is not found in the provided context, say ''
     @ [34] @ pystr ''I don'' @ [39] @ pystr ''t have that information from trusted sources.'' @ [34]
     @ [10, 10] @ pystr ''Context:'' @ [10] @ context_text
     @ [10, 10] @ pystr ''Question: '' @ query
     @ [10, 10] @ pystr ''Answer:''"

text \<open>
  \<open>generate_response\<close>: the first statement reads \<open>self.llm\<close>, outside any \<open>try\<close>.
  \<open>invoke\<close> is \<open>self.llm.invoke(prompt).content\<close>; its exception is caught and
  returned as text. A client object is true.
\<close>

definition generate_response ::
  "('l \<Rightarrow> pystr \<Rightarrow> exn + pystr) \<Rightarrow> ('m, 'c, 'l) app \<Rightarrow> pystr \<Rightarrow> 's retrieved_context list \<Rightarrow> exn + pystr" where
  "generate_response invoke self query context =
     (case llm self of
        None \<Rightarrow> Inl (AttributeError (pystr ''llm''))
      | Some PyNone \<Rightarrow>
          Inr (pystr ''Groq API key not configured. Please set GROQ_API_KEY in your .env file.'')
      | Some (Obj l) \<Rightarrow>
          (let context_text = join [10, 10] (map format_context context);
               prompt = build_prompt context_text query
           in case invoke l prompt of
                Inl e \<Rightarrow> Inr (pystr ''Error generating response: '' @ exn_str e)
              | Inr response_content \<Rightarrow> Inr response_content))"

text \<open>
  The query handling at the end of the script: what is written to the page, and the
  exception that leaves the script, if any.
\<close>

definition handle_query ::
  "('m \<Rightarrow> pystr \<Rightarrow> exn + 'v) \<Rightarrow> ('c \<Rightarrow> 'v \<Rightarrow> nat \<Rightarrow> exn + 's hit list) \<Rightarrow> ('l \<Rightarrow> pystr \<Rightarrow> exn + pystr)
     \<Rightarrow> ('m, 'c, 'l) app \<Rightarrow> pystr \<Rightarrow> 's ui_event list \<times> exn option" where
  "handle_query encode search invoke self query =
     (if query \<noteq> [] then
        (case retrieve_context encode search self query RETRIEVER_K of
           (contexts, shown) \<Rightarrow>
             if contexts \<noteq> [] then
               (case generate_response invoke self query contexts of
                  Inl e \<Rightarrow> (shown @ [Retrieved_context contexts], Some e)
                | Inr response \<Rightarrow>
                    (shown @ [Retrieved_context contexts, Answer response,
                              Sources_referenced (set (map ctx_source contexts))], None))
             else (shown @ [Warning_no_information], None))
      else ([Info_get_started], None))"

section \<open>Names used to state the claims\<close>

text \<open>
  The payload invariant of the points built for one document with the chunk list
  \<open>chunks\<close>: the indices count from 0 in chunk order, every point carries the number of
  chunks, the contents are the chunks, and every index is below the total.
\<close>

definition payload_invariant :: "pystr list \<Rightarrow> 'v point list \<Rightarrow> bool" where
  "payload_invariant chunks pts \<longleftrightarrow>
     map (\<lambda>p. chunk_index (payload p)) pts = [0..<length chunks]
     \<and> list_all (\<lambda>p. total_chunks (payload p) = length chunks) pts
     \<and> map (\<lambda>p. p_content (payload p)) pts = chunks
     \<and> list_all (\<lambda>p. chunk_index (payload p) < total_chunks (payload p)) pts"

text \<open>
  The value of \<open>last_sentence_end\<close> that \<open>chunk_text\<close> computes for a window \<open>w\<close>.
\<close>

definition last_sentence_end_of :: "pystr \<Rightarrow> int" where
  "last_sentence_end_of w = max (max (rfind w 46) (rfind w 33)) (rfind w 63)"

text \<open>
  The sentence cut, in the words of the design: a sentence terminator is one of
  \<open>.\<close>, \<open>!\<close>, \<open>?\<close>; a window \<open>w\<close> is cut at position \<open>n\<close> when \<open>n\<close> is the position of
  the last sentence terminator of \<open>w\<close> and lies beyond \<open>0.7 * size\<close>.
\<close>

definition is_terminator :: "codepoint \<Rightarrow> bool" where
  "is_terminator c \<longleftrightarrow> c = 46 \<or> c = 33 \<or> c = 63"

definition cut_at :: "pystr \<Rightarrow> int \<Rightarrow> nat \<Rightarrow> bool" where
  "cut_at w csize n \<longleftrightarrow>
     n < length w \<and> is_terminator (w ! n)
     \<and> list_all (\<lambda>j. \<not> is_terminator (w ! j)) [Suc n..<length w]
     \<and> exceeds_threshold (int n) csize"

text \<open>
  An example text of 200 characters: a space, 79 letters \<open>a\<close>, a full stop, and 119
  letters \<open>b\<close>.
\<close>

definition sample_text :: pystr where
  "sample_text = [32] @ replicate 79 97 @ [46] @ replicate 119 98"

text \<open>
  Example environments for the concrete runs below: a Qdrant service that refuses every
  call, an embedding model that fails on one batch of texts and returns one (unit)
  vector per text otherwise, an application whose three clients exist, a search that
  fails, a search that finds nothing, and an LLM that returns its prompt.
\<close>

definition refused :: exn where
  "refused = Raised (pystr ''connection refused'')"

definition unreachable_api :: "(unit, unit) qdrant_api" where
  "unreachable_api =
     \<lparr> get_collections = (\<lambda>c. Inl refused),
       delete_collection = (\<lambda>name c. Inl refused),
       create_collection_call = (\<lambda>name c. Inl refused),
       upsert = (\<lambda>name points c. Inl refused) \<rparr>"

definition model_unavailable :: exn where
  "model_unavailable = Raised (pystr ''model unavailable'')"

definition encode_failing_on :: "pystr list \<Rightarrow> pystr list \<Rightarrow> exn + unit list" where
  "encode_failing_on bad texts =
     (if texts = bad then Inl model_unavailable else Inr (replicate (length texts) ()))"

definition doc_a :: document where
  "doc_a = \<lparr> url = pystr ''https://x/a'', title = pystr ''A'', content = replicate 60 97,
             source = pystr ''FEMA'', scraped_date = pystr ''2024-01-01'',
             doc_type = pystr ''guide'' \<rparr>"

definition doc_b :: document where
  "doc_b = \<lparr> url = pystr ''https://x/b'', title = pystr ''B'', content = replicate 60 98,
             source = pystr ''CDC'', scraped_date = pystr ''2024-01-01'',
             doc_type = pystr ''guide'' \<rparr>"

definition ready_app :: "(unit, unit, unit) app" where
  "ready_app = \<lparr> embedding_model = Obj (), qdrant_client = Obj (), groq_client = PyNone,
                 llm = Some (Obj ()) \<rparr>"

definition encode_ok :: "unit \<Rightarrow> pystr \<Rightarrow> exn + unit" where
  "encode_ok m query = Inr ()"

definition search_down :: "unit \<Rightarrow> unit \<Rightarrow> nat \<Rightarrow> exn + unit hit list" where
  "search_down c v k = Inl refused"

definition search_nothing :: "unit \<Rightarrow> unit \<Rightarrow> nat \<Rightarrow> exn + unit hit list" where
  "search_nothing c v k = Inr []"

definition invoke_echo :: "unit \<Rightarrow> pystr \<Rightarrow> exn + pystr" where
  "invoke_echo l prompt = Inr prompt"

section \<open>Properties of the chunker\<close>

lemma length_strip_le: "length (strip s) \<le> length s"
proof -
  have "length (strip s) \<le> length (dropWhile isspace s)"
    unfolding strip_def using length_dropWhile_le [of isspace "rev (dropWhile isspace s)"] by simp
  also have "\<dots> \<le> length s" by (rule length_dropWhile_le)
  finally show ?thesis .
qed

lemma rstrip_prefix: "prefix (rev (dropWhile P (rev y))) y"
proof -
  have "rev y = takeWhile P (rev y) @ dropWhile P (rev y)" by simp
  then have "y = rev (dropWhile P (rev y)) @ rev (takeWhile P (rev y))"
    by (metis rev_append rev_rev_ident)
  then show ?thesis by (metis prefixI)
qed

lemma lstrip_fixed: "t \<noteq> [] \<Longrightarrow> \<not> P (hd t) \<Longrightarrow> dropWhile P t = t"
  by (cases t) simp_all

lemma strip_strip: "strip (strip s) = strip s"
proof (cases "strip s = []")
  case True
  have "strip [] = []" by (simp add: strip_def)
  with True show ?thesis by simp
next
  case False
  let ?y = "dropWhile isspace s"
  let ?u = "dropWhile isspace (rev ?y)"
  have t: "strip s = rev ?u" by (simp add: strip_def)
  have pre: "prefix (strip s) ?y" unfolding t by (rule rstrip_prefix)
  have ny: "?y \<noteq> []"
  proof
    assume e: "?y = []"
    from pre [unfolded e] have "strip s = []" by simp
    with False show False by simp
  qed
  from False pre have "hd (strip s) = hd ?y"
    by (metis hd_append2 prefixE)
  moreover from ny have "\<not> isspace (hd ?y)" by (rule hd_dropWhile)
  ultimately have l: "dropWhile isspace (strip s) = strip s"
    using False by (simp add: lstrip_fixed)
  have "dropWhile isspace ?u = ?u" by (rule dropWhile_idem)
  then have "rev (dropWhile isspace (rev (strip s))) = strip s" by (simp add: t)
  with l show ?thesis by (simp add: strip_def [of "strip s"])
qed


lemma slice_bound_nonneg: "0 \<le> i \<Longrightarrow> slice_bound n i = min (nat i) n"
  by (simp add: slice_bound_def)

lemma py_slice_nonneg:
  "0 \<le> a \<Longrightarrow> a \<le> b \<Longrightarrow> py_slice s a b = take (nat b - nat a) (drop (nat a) s)"
  by (auto simp: py_slice_def slice_bound_nonneg Let_def min_def)

lemma py_slice_prefix: "prefix (py_slice s 0 b) s"
  by (simp add: py_slice_def slice_bound_def Let_def take_is_prefix)

lemma window_chunk_prefix:
  "prefix (window_chunk text csize start) (py_slice text start (start + csize))"
  by (simp add: window_chunk_def Let_def py_slice_prefix)

lemma window_chunk_last:
  "int (length text) \<le> start + csize \<Longrightarrow>
   window_chunk text csize start = py_slice text start (start + csize)"
  by (simp add: window_chunk_def Let_def)

lemma rfind_from_cases:
  "(c \<notin> set xs \<and> rfind_from c xs i best = best)
   \<or> (\<exists>j<length xs. xs ! j = c \<and> (\<forall>j'. j < j' \<and> j' < length xs \<longrightarrow> xs ! j' \<noteq> c)
          \<and> rfind_from c xs i best = i + int j)"
proof (induction xs arbitrary: i best)
  case Nil
  then show ?case by simp
next
  case (Cons x xs)
  let ?b = "if x = c then i else best"
  from Cons [of "i + 1" ?b] show ?case
  proof
    assume a: "c \<notin> set xs \<and> rfind_from c xs (i + 1) ?b = ?b"
    show ?thesis
    proof (cases "x = c")
      case True
      have "\<forall>j'. 0 < j' \<and> j' < length (x # xs) \<longrightarrow> (x # xs) ! j' \<noteq> c"
      proof (intro allI impI)
        fix j' assume h: "0 < j' \<and> j' < length (x # xs)"
        then obtain k where k: "j' = Suc k" by (cases j') auto
        with h have "xs ! k \<in> set xs" by simp
        with a k show "(x # xs) ! j' \<noteq> c" by auto
      qed
      moreover have "rfind_from c (x # xs) i best = i + int 0" using a True by simp
      moreover have "(x # xs) ! 0 = c" using True by simp
      ultimately show ?thesis by (intro disjI2 exI [of _ 0]) simp
    next
      case False
      with a show ?thesis by simp
    qed
  next
    assume "\<exists>j<length xs. xs ! j = c \<and> (\<forall>j'. j < j' \<and> j' < length xs \<longrightarrow> xs ! j' \<noteq> c)
          \<and> rfind_from c xs (i + 1) ?b = i + 1 + int j"
    then obtain j where j: "j < length xs" "xs ! j = c"
      "\<forall>j'. j < j' \<and> j' < length xs \<longrightarrow> xs ! j' \<noteq> c"
      "rfind_from c xs (i + 1) ?b = i + 1 + int j" by blast
    have "\<forall>j'. Suc j < j' \<and> j' < length (x # xs) \<longrightarrow> (x # xs) ! j' \<noteq> c"
    proof (intro allI impI)
      fix j' assume h: "Suc j < j' \<and> j' < length (x # xs)"
      then obtain k where k: "j' = Suc k" by (cases j') auto
      with h j(3) show "(x # xs) ! j' \<noteq> c" by simp
    qed
    moreover have "rfind_from c (x # xs) i best = i + int (Suc j)" using j(4) by simp
    moreover have "Suc j < length (x # xs)" "(x # xs) ! Suc j = c" using j by simp_all
    ultimately show ?thesis by (intro disjI2 exI [of _ "Suc j"]) simp
  qed
qed

lemma rfind_range:
  "rfind w c = - 1 \<or> (0 \<le> rfind w c \<and> rfind w c < int (length w) \<and> w ! nat (rfind w c) = c)"
  using rfind_from_cases [of c w 0 "- 1"] by (auto simp: rfind_def)

lemma rfind_upper:
  assumes "j < length w" and "w ! j = c"
  shows "int j \<le> rfind w c"
proof -
  from assms have "c \<in> set w" by (auto simp: in_set_conv_nth)
  with rfind_from_cases [of c w 0 "- 1"] obtain j0 where
    j0: "j0 < length w" "\<forall>j'. j0 < j' \<and> j' < length w \<longrightarrow> w ! j' \<noteq> c" "rfind w c = int j0"
    by (auto simp: rfind_def)
  have "j \<le> j0"
  proof (rule ccontr)
    assume "\<not> j \<le> j0"
    with j0(2) assms show False by auto
  qed
  with j0(3) show ?thesis by simp
qed

lemma last_end_range:
  "last_sentence_end_of w = - 1 \<or> (0 \<le> last_sentence_end_of w \<and> last_sentence_end_of w < int (length w) \<and> is_terminator (w ! nat (last_sentence_end_of w)))"
  using rfind_range [of w 46] rfind_range [of w 33] rfind_range [of w 63]
  unfolding last_sentence_end_of_def is_terminator_def max_def by (auto split: if_splits)

lemma last_end_upper:
  assumes "j < length w" and "is_terminator (w ! j)"
  shows "int j \<le> last_sentence_end_of w"
  using assms rfind_upper [of j w 46] rfind_upper [of j w 33] rfind_upper [of j w 63]
  unfolding last_sentence_end_of_def is_terminator_def by auto

lemma times_0_7_scaled_nonneg: "0 \<le> n \<Longrightarrow> 0 \<le> times_0_7_scaled n"
  by (simp add: times_0_7_scaled_def Let_def)

lemma no_cut_without_terminator: "0 < csize \<Longrightarrow> \<not> exceeds_threshold (- 1) csize"
  using times_0_7_scaled_nonneg [of csize] by (simp add: exceeds_threshold_def)

lemma cut_at_last_end:
  assumes "cut_at w csize n"
  shows "last_sentence_end_of w = int n"
proof -
  from assms have n: "n < length w" "is_terminator (w ! n)"
    and after: "list_all (\<lambda>j. \<not> is_terminator (w ! j)) [Suc n..<length w]"
    by (simp_all add: cut_at_def)
  from n have le: "int n \<le> last_sentence_end_of w" by (rule last_end_upper)
  with last_end_range [of w] have r: "last_sentence_end_of w < int (length w)" "is_terminator (w ! nat (last_sentence_end_of w))"
    by auto
  have "\<not> int n < last_sentence_end_of w"
  proof
    assume "int n < last_sentence_end_of w"
    with r(1) have "nat (last_sentence_end_of w) \<in> set [Suc n..<length w]" by auto
    with after r(2) show False by (auto simp: list_all_iff)
  qed
  with le show ?thesis by simp
qed

lemma last_end_cut_at:
  assumes "0 < csize" and "exceeds_threshold (last_sentence_end_of w) csize"
  shows "cut_at w csize (nat (last_sentence_end_of w))"
proof -
  from assms no_cut_without_terminator have "last_sentence_end_of w \<noteq> - 1" by auto
  with last_end_range [of w] have r: "0 \<le> last_sentence_end_of w" "last_sentence_end_of w < int (length w)"
    "is_terminator (w ! nat (last_sentence_end_of w))" by auto
  have "\<not> is_terminator (w ! j)" if "j \<in> set [Suc (nat (last_sentence_end_of w))..<length w]" for j
  proof
    assume "is_terminator (w ! j)"
    with that have "int j \<le> last_sentence_end_of w" by (intro last_end_upper) auto
    with that r(1) show False by auto
  qed
  then show ?thesis using r assms(2) by (auto simp: cut_at_def list_all_iff)
qed

lemma window_chunk_last_end:
  "window_chunk text csize start =
     (let w = py_slice text start (start + csize)
      in if start + csize < int (length text) \<and> exceeds_threshold (last_sentence_end_of w) csize
         then py_slice w 0 (last_sentence_end_of w + 1) else w)"
  by (simp add: window_chunk_def last_sentence_end_of_def Let_def)

lemma window_chunk_cut:
  assumes "start + csize < int (length text)"
      and "cut_at (py_slice text start (start + csize)) csize n"
  shows "window_chunk text csize start = take (Suc n) (py_slice text start (start + csize))"
proof -
  let ?w = "py_slice text start (start + csize)"
  from assms(2) have l: "last_sentence_end_of ?w = int n" by (rule cut_at_last_end)
  from assms(2) have "exceeds_threshold (int n) csize" "n < length ?w"
    by (simp_all add: cut_at_def)
  moreover have "nat (int n + 1) = Suc n" by simp
  ultimately show ?thesis
    using assms(1) l
    by (simp add: window_chunk_last_end Let_def py_slice_def [of ?w] slice_bound_def)
qed

lemma window_chunk_whole:
  assumes "0 < csize"
      and "\<not> (start + csize < int (length text)
              \<and> (\<exists>n. cut_at (py_slice text start (start + csize)) csize n))"
  shows "window_chunk text csize start = py_slice text start (start + csize)"
  using assms last_end_cut_at [of csize "py_slice text start (start + csize)"]
  by (auto simp: window_chunk_last_end Let_def)

lemma iters_from_done:
  assumes "ovl < csize" "int (length text) \<le> start"
  shows "iters_from text csize ovl start = 0"
proof -
  define d where "d = csize - ovl"
  define x where "x = int (length text) - start + d - 1"
  have d: "0 < d" using assms by (simp add: d_def)
  have x: "x < d" using assms by (simp add: x_def)
  have "x div d \<le> 0"
  proof (cases "x < 0")
    case True
    with d have "x div d < 0" by (simp add: pos_imp_zdiv_neg_iff)
    then show ?thesis by simp
  next
    case False
    with x have "x div d = 0" by (simp add: div_pos_pos_trivial)
    then show ?thesis by simp
  qed
  then have "nat (x div d) = 0" by simp
  then show ?thesis unfolding iters_from_def x_def d_def .
qed

lemma iters_from_step:
  assumes "ovl < csize" "start < int (length text)"
  shows "iters_from text csize ovl start = Suc (iters_from text csize ovl (start + csize - ovl))"
proof -
  define d where "d = csize - ovl"
  define x where "x = int (length text) - (start + csize - ovl) + d - 1"
  have d: "0 < d" using assms by (simp add: d_def)
  have x: "0 \<le> x" using assms by (simp add: x_def d_def)
  have "int (length text) - start + d - 1 = x + d" by (simp add: x_def d_def)
  then have "(int (length text) - start + d - 1) div d = x div d + 1"
    using d by (simp only: div_add_self2)
  moreover have "0 \<le> x div d" using x d by (simp add: pos_imp_zdiv_nonneg_iff)
  ultimately have "nat ((int (length text) - start + d - 1) div d) = Suc (nat (x div d))"
    by (simp add: nat_add_distrib)
  then show ?thesis unfolding iters_from_def x_def d_def .
qed

lemma chunk_loop_from:
  assumes "ovl < csize"
  shows "chunk_loop text csize ovl start chunks =
     Some (chunks @ map (\<lambda>k. strip (window_chunk text csize (start + int k * (csize - ovl))))
                      [0..<iters_from text csize ovl start])"
proof (induction "nat (int (length text) - start)" arbitrary: start chunks rule: less_induct)
  case less
  show ?case
  proof (cases "start < int (length text)")
    case False
    then have "iters_from text csize ovl start = 0"
      using assms by (simp add: iters_from_done)
    moreover have "chunk_loop text csize ovl start chunks = Some chunks"
      using False by (subst chunk_loop.simps) simp
    ultimately show ?thesis by simp
  next
    case True
    let ?s' = "start + csize - ovl"
    let ?c' = "chunks @ [strip (window_chunk text csize start)]"
    have it: "iters_from text csize ovl start = Suc (iters_from text csize ovl ?s')"
      using assms True by (rule iters_from_step)
    have shift: "map (\<lambda>k. strip (window_chunk text csize (start + int k * (csize - ovl))))
                  [0..<Suc n] =
          strip (window_chunk text csize start) #
          map (\<lambda>k. strip (window_chunk text csize (?s' + int k * (csize - ovl)))) [0..<n]" for n
      by (simp add: map_upt_Suc algebra_simps del: upt_Suc)
    show ?thesis
    proof (cases "int (length text) \<le> ?s'")
      case True
      then have z: "iters_from text csize ovl ?s' = 0"
        using assms by (simp add: iters_from_done)
      have "chunk_loop text csize ovl start chunks = Some ?c'"
        using \<open>start < int (length text)\<close> True by (subst chunk_loop.simps) (simp add: Let_def)
      then show ?thesis by (simp add: it z)
    next
      case False
      have "nat (int (length text) - ?s') < nat (int (length text) - start)"
        using assms True by simp
      from less [OF this]
      have ih: "chunk_loop text csize ovl ?s' ?c' =
        Some (?c' @ map (\<lambda>k. strip (window_chunk text csize (?s' + int k * (csize - ovl))))
                      [0..<iters_from text csize ovl ?s'])" .
      have "chunk_loop text csize ovl start chunks = chunk_loop text csize ovl ?s' ?c'"
        using True False by (subst chunk_loop.simps) (simp add: Let_def)
      then show ?thesis unfolding ih it shift by simp
    qed
  qed
qed


lemma chunk_loop_windows:
  assumes "ovl < csize"
  shows "chunk_loop text csize ovl 0 [] =
     Some (map (\<lambda>k. strip (window_chunk text csize (window_start csize ovl k)))
             [0..<num_windows text csize ovl])"
  using chunk_loop_from [OF assms, of "text" 0 "[]"]
  by (simp add: num_windows_def window_start_def)

lemma filter_stripped:
  "filter (\<lambda>chunk. length (strip chunk) > 50) (map (\<lambda>k. strip (f k)) ks) =
   filter (\<lambda>c. 50 < length c) (map (\<lambda>k. strip (f k)) ks)"
  by (induction ks) (simp_all add: strip_strip)

lemma chunk_text_windows:
  assumes "ovl < csize"
  shows "chunk_text self text (Some csize) (Some ovl) =
     Some (filter (\<lambda>c. 50 < length c)
             (map (\<lambda>k. strip (window_chunk text csize (window_start csize ovl k)))
                [0..<num_windows text csize ovl]))"
  by (simp add: chunk_text_def chunk_loop_windows [OF assms] filter_stripped)

lemma concat_take_drop:
  "concat (map (\<lambda>k. take d (drop (k * d) xs)) [0..<n]) = take (n * d) xs"
proof (induction n)
  case 0
  then show ?case by simp
next
  case (Suc n)
  have "take (n * d) xs @ take d (drop (n * d) xs) = take (n * d + d) xs"
    by (simp add: take_add)
  with Suc show ?case by (simp add: add.commute)
qed

lemma window_nonneg:
  assumes "0 \<le> ovl" "ovl < csize"
  shows "take (nat (csize - ovl)) (window text csize ovl k) = take (nat (csize - ovl)) (drop (k * nat (csize - ovl)) text)"
proof -
  have s: "0 \<le> window_start csize ovl k" using assms by (simp add: window_start_def)
  have n: "nat (window_start csize ovl k) = k * nat (csize - ovl)"
    using assms by (simp add: window_start_def nat_mult_distrib)
  have "window text csize ovl k = take (nat (window_start csize ovl k + csize) - nat (window_start csize ovl k)) (drop (nat (window_start csize ovl k)) text)"
    unfolding window_def using s assms by (intro py_slice_nonneg) simp_all
  also have "nat (window_start csize ovl k + csize) - nat (window_start csize ovl k) = nat csize"
    using s assms by simp
  finally have "window text csize ovl k = take (nat csize) (drop (k * nat (csize - ovl)) text)"
    by (simp add: n)
  moreover have "min (nat (csize - ovl)) (nat csize) = nat (csize - ovl)" using assms by simp
  ultimately show ?thesis by simp
qed

lemma num_windows_cover:
  assumes "ovl < csize"
  shows "length text \<le> num_windows text csize ovl * nat (csize - ovl)"
proof -
  define d where "d = csize - ovl"
  define x where "x = int (length text) + d - 1"
  have d: "0 < d" using assms by (simp add: d_def)
  have x: "0 \<le> x" using d by (simp add: x_def)
  have "x = x div d * d + x mod d" by simp
  moreover have "x mod d < d" using d by simp
  ultimately have "x - (d - 1) \<le> x div d * d" by linarith
  then have "int (length text) \<le> x div d * d" by (simp add: x_def)
  moreover have "0 \<le> x div d" using x d by (simp add: pos_imp_zdiv_nonneg_iff)
  ultimately have "int (length text) \<le> int (nat (x div d) * nat d)"
    using d by simp
  then have "length text \<le> nat (x div d) * nat d" by linarith
  then show ?thesis by (simp add: num_windows_def iters_from_def x_def d_def)
qed

lemma windows_reconstruct:
  assumes "0 \<le> ovl" "ovl < csize"
  shows "concat (map (\<lambda>k. take (nat (csize - ovl)) (window text csize ovl k))
           [0..<num_windows text csize ovl]) = text"
  using num_windows_cover [OF assms(2), of "text"]
  by (simp add: window_nonneg [OF assms] concat_take_drop)


lemma later_window_short:
  assumes "int (length text) < csize" and "0 \<le> ovl" and "ovl \<le> 51" and "ovl < csize"
  shows "length (strip (window_chunk text csize (window_start csize ovl (Suc k)))) \<le> 50"
proof -
  define s where "s = window_start csize ovl (Suc k)"
  have d: "0 < csize - ovl" using assms by simp
  have "0 \<le> int k * (csize - ovl)" using d by simp
  then have s: "csize - ovl \<le> s" by (simp add: s_def window_start_def algebra_simps)
  then have s0: "0 \<le> s" using d by simp
  have "int (length text) \<le> s + csize" using s0 assms by simp
  then have "window_chunk text csize s = py_slice text s (s + csize)"
    by (rule window_chunk_last)
  also have "\<dots> = take (nat (s + csize) - nat s) (drop (nat s) text)"
    using s0 assms by (intro py_slice_nonneg) simp_all
  finally have "length (window_chunk text csize s) \<le> length text - nat s" by simp
  also have "\<dots> \<le> 50" using s assms by simp
  finally have "length (window_chunk text csize s) \<le> 50" .
  with length_strip_le [of "window_chunk text csize s"] show ?thesis
    unfolding s_def by simp
qed

lemma first_window_whole:
  assumes "int (length text) < csize"
  shows "window_chunk text csize (window_start csize ovl 0) = text"
proof -
  have "window_chunk text csize 0 = py_slice text 0 (0 + csize)"
    using assms by (intro window_chunk_last) simp
  also have "\<dots> = text" using assms by (simp add: py_slice_def slice_bound_def Let_def)
  finally show ?thesis by (simp add: window_start_def)
qed

lemma num_windows_Nil: "ovl < csize \<Longrightarrow> num_windows [] csize ovl = 0"
  by (simp add: num_windows_def iters_from_done)

lemma num_windows_Suc:
  "ovl < csize \<Longrightarrow> text \<noteq> [] \<Longrightarrow> \<exists>m. num_windows text csize ovl = Suc m"
  by (simp add: num_windows_def iters_from_step)


section \<open>Properties of the upload\<close>

lemma foldl_snoc_map:
  "foldl (\<lambda>points (i, chunk, embedding). points @ [P i chunk embedding]) acc xs =
   acc @ map (\<lambda>(i, chunk, embedding). P i chunk embedding) xs"
  by (induction xs arbitrary: acc) auto

lemma foldl_store_map:
  "embeddings_data (foldl (\<lambda>self (i, chunk, embedding).
       self\<lparr> embeddings_data := embeddings_data self @ [P i chunk embedding] \<rparr>) s xs) =
   embeddings_data s @ map (\<lambda>(i, chunk, embedding). P i chunk embedding) xs"
  by (induction xs arbitrary: s) auto

lemma qdrant_points_map:
  "qdrant_points uuid5 doc chunks embeddings =
     map (\<lambda>(i, chunk, embedding).
        \<lparr> point_id = uuid5 NAMESPACE_URL (url doc @ pystr ''#'' @ str_nat i),
          vector = embedding,
          payload = \<lparr> p_content = chunk, p_title = title doc, p_source = source doc,
            p_scraped_date = scraped_date doc, p_type = doc_type doc, p_url = url doc,
            chunk_index = i, total_chunks = length chunks,
            original_id = url doc @ pystr ''#'' @ str_nat i \<rparr> \<rparr>)
       (enumerate 0 (zip chunks embeddings))"
  unfolding qdrant_points_def Let_def by (simp add: foldl_snoc_map)

lemma upload_chunks_local_map:
  "embeddings_data (upload_chunks_local uuid5 self doc chunks embeddings) =
     embeddings_data self @ qdrant_points uuid5 doc chunks embeddings"
  unfolding upload_chunks_local_def Let_def qdrant_points_map by (simp add: foldl_store_map)

lemma map_enumerate_fst:
  "map (\<lambda>x. f (fst x)) (enumerate 0 xs) = map f [0..<length xs]"
proof -
  have e: "map fst (enumerate 0 xs) = [0..<length xs]" by (simp add: map_fst_enumerate)
  have "map (f \<circ> fst) (enumerate 0 xs) = map f (map fst (enumerate 0 xs))"
    by (simp only: map_map)
  then have "map (f \<circ> fst) (enumerate 0 xs) = map f [0..<length xs]" by (simp only: e)
  then show ?thesis by (simp add: comp_def)
qed

lemma map_enumerate_snd:
  "map (\<lambda>x. g (snd x)) (enumerate 0 xs) = map g xs"
proof -
  have e: "map snd (enumerate 0 xs) = xs" by (simp add: map_snd_enumerate)
  have "map (g \<circ> snd) (enumerate 0 xs) = map g (map snd (enumerate 0 xs))"
    by (simp only: map_map)
  then have "map (g \<circ> snd) (enumerate 0 xs) = map g xs" by (simp only: e)
  then show ?thesis by (simp add: comp_def)
qed

lemma qdrant_points_ids:
  "map point_id (qdrant_points uuid5 doc chunks embeddings) =
     map (\<lambda>i. uuid5 NAMESPACE_URL (url doc @ pystr ''#'' @ str_nat i))
       [0..<min (length chunks) (length embeddings)]"
  using map_enumerate_fst [of "\<lambda>i. uuid5 NAMESPACE_URL (url doc @ pystr ''#'' @ str_nat i)" "zip chunks embeddings"]
  by (simp add: qdrant_points_map comp_def case_prod_beta)

lemma qdrant_points_invariant:
  assumes "length embeddings = length chunks"
  shows "payload_invariant chunks (qdrant_points uuid5 doc chunks embeddings)"
proof -
  let ?xs = "zip chunks embeddings"
  have i: "map (\<lambda>x. fst x) (enumerate 0 ?xs) = [0..<length chunks]"
    using assms map_enumerate_fst [of "\<lambda>i. i" ?xs] by simp
  have c: "map (\<lambda>x. fst (snd x)) (enumerate 0 ?xs) = chunks"
    using assms map_enumerate_snd [of fst ?xs] by simp
  have b: "list_all (\<lambda>x. fst x < length chunks) (enumerate 0 ?xs)"
    using assms by (auto simp: list_all_iff enumerate_eq_zip dest: set_zip_leftD)
  show ?thesis
    unfolding payload_invariant_def qdrant_points_map
    using i c b by (simp add: comp_def case_prod_beta list_all_iff)
qed

section \<open>Properties of the run and of the application\<close>

lemma process_documents_append:
  "process_documents api uuid5 encode proc (before @ rest) mgr count =
     (case process_documents api uuid5 encode proc before mgr count of
        Some (Completed mgr' count') \<Rightarrow> process_documents api uuid5 encode proc rest mgr' count'
      | r \<Rightarrow> r)"
  by (induction before arbitrary: mgr count)
     (auto split: option.splits sum.splits outcome.splits)

lemma setup_clients_no_key:
  assumes "\<not> (truthy groq_api_key \<and> groq_api_key \<noteq> Some (pystr ''your_groq_api_key_here''))"
  shows "llm (fst (setup_clients load_model make_qdrant make_llm qdrant_api_key groq_api_key self))
           = llm self"
  using assms by (auto simp: setup_clients_def Let_def split: sum.splits)

section \<open>The example text, window by window\<close>

lemma rfind_from_append:
  "rfind_from c (xs @ ys) i best = rfind_from c ys (i + int (length xs)) (rfind_from c xs i best)"
  by (induction xs arbitrary: i best) (simp_all add: algebra_simps)

lemma rfind_from_replicate: "x \<noteq> c \<Longrightarrow> rfind_from c (replicate n x) i best = best"
  by (induction n arbitrary: i) simp_all

lemma sample_window_0:
  "window sample_text 100 10 0 = [32] @ replicate 79 97 @ [46] @ replicate 19 98"
  by (simp add: window_def window_start_def py_slice_nonneg) (simp add: sample_text_def)

lemma sample_window_1: "window sample_text 100 10 1 = replicate 100 98"
  by (simp add: window_def window_start_def py_slice_nonneg) (simp add: sample_text_def)

lemma sample_window_2: "window sample_text 100 10 2 = replicate 20 98"
  by (simp add: window_def window_start_def py_slice_nonneg) (simp add: sample_text_def)

lemma sample_last_end_0:
  "last_sentence_end_of ([32] @ replicate 79 97 @ [46] @ replicate 19 98) = 80"
  by (simp add: last_sentence_end_of_def rfind_def rfind_from_append rfind_from_replicate)

lemma sample_last_end_1: "last_sentence_end_of (replicate 100 98) = - 1"
  by (simp add: last_sentence_end_of_def rfind_def rfind_from_replicate)

lemma sample_threshold: "exceeds_threshold 80 100"
  by (simp add: exceeds_threshold_def times_0_7_scaled_def round53_def bitlen.simps Let_def)

lemma sample_last_end_window_0: "last_sentence_end_of (window sample_text 100 10 0) = 80"
  by (simp only: sample_window_0 sample_last_end_0)

lemma sample_cut: "cut_at (window sample_text 100 10 0) 100 80"
proof -
  have "exceeds_threshold (last_sentence_end_of (window sample_text 100 10 0)) 100"
    by (simp only: sample_last_end_window_0 sample_threshold)
  then have "cut_at (window sample_text 100 10 0) 100
      (nat (last_sentence_end_of (window sample_text 100 10 0)))"
    by (intro last_end_cut_at) simp_all
  then have "cut_at (window sample_text 100 10 0) 100 (nat 80)"
    by (simp only: sample_last_end_window_0)
  then show ?thesis by simp
qed

lemma sample_no_cut: "\<not> cut_at (window sample_text 100 10 1) 100 n"
proof
  assume "cut_at (window sample_text 100 10 1) 100 n"
  then have "last_sentence_end_of (window sample_text 100 10 1) = int n"
    by (rule cut_at_last_end)
  then have "- 1 = int n" by (simp only: sample_window_1 sample_last_end_1)
  then show False by simp
qed

lemma sample_length: "length sample_text = 200"
  by (simp add: sample_text_def)

lemma sample_num_windows: "num_windows sample_text 100 10 = 3"
  by (simp add: num_windows_def iters_from_def sample_length)

lemma sample_strip_0: "strip ([32] @ replicate 79 97 @ [46]) = replicate 79 97 @ [46]"
  by (simp add: strip_def isspace_def)

lemma sample_strip_1: "strip (replicate 100 98) = replicate 100 98"
  by (simp add: strip_def isspace_def)

lemma sample_strip_2: "strip (replicate 20 98) = replicate 20 98"
  by (simp add: strip_def isspace_def)

lemma upt_3: "[0..<3] = [0, 1, 2]"
  by (simp add: upt_rec)


lemmas chunk_eval =
  chunk_text_def chunk_loop.simps pystr_def window_chunk_def py_slice_def slice_bound_def
  strip_def isspace_def DocumentProcessor_def Let_def rfind_def

lemmas upload_eval =
  upload_chunks_local_def qdrant_points_def enumerate_eq_zip Let_def local_fallback_def
  doc_a_def doc_b_def pystr_def payload_invariant_def

lemmas run_eval =
  main_def QdrantManager_def create_collection_def upload_chunks_def create_embeddings_def
  encode_failing_on_def model_unavailable_def refused_def unreachable_api_def
  upload_eval chunk_eval

lemmas app_eval =
  retrieve_context_def handle_query_def ready_app_def encode_ok_def search_down_def
  search_nothing_def invoke_echo_def refused_def RETRIEVER_K_def pystr_def

section \<open>Claims about the chunker\<close>

subsection \<open>C9: termination\<close>

text \<open>
  C9. For every text and every \<open>(size, overlap)\<close> with \<open>0 \<le> overlap < size\<close>,
  \<open>chunk_text\<close> terminates and returns a finite chunk sequence, whatever the text
  holds near the window boundaries: each iteration advances the window start by
  \<open>size - overlap > 0\<close>, so the loop runs \<open>num_windows\<close> times, the number of multiples
  of the step below the length of the text, and returns.
\<close>

theorem chunk_text_terminates:
  assumes "0 \<le> ovl" and "ovl < csize"
  shows "(\<exists>produced. chunk_loop text csize ovl 0 [] = Some produced
            \<and> length produced = num_windows text csize ovl)
       \<and> (\<exists>out. chunk_text self text (Some csize) (Some ovl) = Some out)"
  by (simp add: chunk_loop_windows [OF assms(2)] chunk_text_windows [OF assms(2)])

theorem chunk_text_terminates_witness:
  "(0::int) \<le> 50 \<and> (50::int) < 500
   \<and> (\<exists>produced. chunk_loop (replicate 600 97) 500 50 0 [] = Some produced
          \<and> length produced = num_windows (replicate 600 97) 500 50)
   \<and> (\<exists>out. chunk_text DocumentProcessor (replicate 600 97) (Some 500) (Some 50) = Some out)"
  using chunk_text_terminates [of 50 500 "replicate 600 97" DocumentProcessor] by simp

subsection \<open>C7: the length filter\<close>

text \<open>
  C7, as the code has it. For every text and every \<open>(size, overlap)\<close> with
  \<open>0 \<le> overlap < size\<close>, the sequence \<open>chunk_text\<close> returns is the sequence of chunks
  the loop produced, in order, without those of at most 50 characters: every returned
  chunk has more than 50 characters, and no produced chunk of more than 50 characters
  is dropped.
\<close>

theorem chunk_text_floor:
  assumes "0 \<le> ovl" and "ovl < csize"
  shows "\<exists>produced. chunk_loop text csize ovl 0 [] = Some produced
           \<and> chunk_text self text (Some csize) (Some ovl)
               = Some (filter (\<lambda>chunk. 50 < length chunk) produced)"
  by (simp add: chunk_loop_windows [OF assms(2)] chunk_text_windows [OF assms(2)])

theorem chunk_text_floor_witness:
  "(0::int) \<le> 50 \<and> (50::int) < 500
   \<and> (\<exists>produced. chunk_loop (replicate 51 97) 500 50 0 [] = Some produced
           \<and> chunk_text DocumentProcessor (replicate 51 97) (Some 500) (Some 50)
               = Some (filter (\<lambda>chunk. 50 < length chunk) produced))"
  using chunk_text_floor [of 50 500 "replicate 51 97" DocumentProcessor] by simp

text \<open>
  The claim as written keeps every produced chunk of at least 50 characters. A text of
  exactly 50 letters is one produced chunk of length 50, and it is dropped.
\<close>

theorem exactly_50_dropped_counterexample:
  "(0::int) \<le> 50 \<and> (50::int) < 500
   \<and> chunk_loop (replicate 50 97) 500 50 0 [] = Some [replicate 50 97]
   \<and> 50 \<le> length (replicate 50 (97::nat))
   \<and> chunk_text DocumentProcessor (replicate 50 97) (Some 500) (Some 50) = Some []"
  by (simp add: chunk_eval)

subsection \<open>C2: coverage of the text\<close>

text \<open>
  C2, as the code has it. For every text and every \<open>(size, overlap)\<close> with
  \<open>0 \<le> overlap < size\<close>, the windows \<open>text[start:start + size]\<close> the loop scans, at the
  starts \<open>0, step, 2 step, ...\<close> with \<open>step = size - overlap\<close>, cover the text in order:
  the first \<open>step\<close> characters of each window, concatenated, are the text. The returned
  chunks are taken from these windows in order, each the stripped form of a prefix of
  its window, and a window whose chunk has at most 50 characters contributes no chunk.
  The prefix is determined: a window that ends before the end of the text and whose last
  sentence terminator lies beyond \<open>0.7 * size\<close> is cut just after that terminator; every
  other window is taken whole.
\<close>

theorem chunk_text_windows_cover:
  assumes "0 \<le> ovl" and "ovl < csize"
  shows "concat (map (\<lambda>k. take (nat (csize - ovl)) (window text csize ovl k))
           [0..<num_windows text csize ovl]) = text
       \<and> chunk_text self text (Some csize) (Some ovl) =
           Some (filter (\<lambda>chunk. 50 < length chunk)
             (map (\<lambda>k. strip (window_chunk text csize (window_start csize ovl k)))
                [0..<num_windows text csize ovl]))
       \<and> (\<forall>k. prefix (window_chunk text csize (window_start csize ovl k))
                  (window text csize ovl k))
       \<and> (\<forall>k n. window_start csize ovl k + csize < int (length text)
                  \<longrightarrow> cut_at (window text csize ovl k) csize n
                  \<longrightarrow> window_chunk text csize (window_start csize ovl k)
                        = take (Suc n) (window text csize ovl k))
       \<and> (\<forall>k. \<not> (window_start csize ovl k + csize < int (length text)
                     \<and> (\<exists>n. cut_at (window text csize ovl k) csize n))
                \<longrightarrow> window_chunk text csize (window_start csize ovl k)
                      = window text csize ovl k)"
proof -
  have pos: "0 < csize" using assms by simp
  have cut: "window_chunk text csize (window_start csize ovl k)
               = take (Suc n) (window text csize ovl k)"
    if "window_start csize ovl k + csize < int (length text)"
      and "cut_at (window text csize ovl k) csize n" for k n
    using that unfolding window_def by (rule window_chunk_cut)
  have whole: "window_chunk text csize (window_start csize ovl k) = window text csize ovl k"
    if "\<not> (window_start csize ovl k + csize < int (length text)
            \<and> (\<exists>n. cut_at (window text csize ovl k) csize n))" for k
    using pos that unfolding window_def by (rule window_chunk_whole)
  have pre: "prefix (window_chunk text csize (window_start csize ovl k))
               (window text csize ovl k)" for k
    unfolding window_def by (rule window_chunk_prefix)
  from windows_reconstruct [OF assms] chunk_text_windows [OF assms(2)] cut whole pre
  show ?thesis by blast
qed

theorem chunk_text_windows_cover_witness:
  "(0::int) \<le> 10 \<and> (10::int) < 100
   \<and> concat (map (\<lambda>k. take (nat (100 - 10)) (window sample_text 100 10 k))
         [0..<num_windows sample_text 100 10]) = sample_text
   \<and> num_windows sample_text 100 10 = 3
   \<and> window_start 100 10 0 + 100 < int (length sample_text)
   \<and> cut_at (window sample_text 100 10 0) 100 80
   \<and> window_chunk sample_text 100 (window_start 100 10 0)
       = take (Suc 80) (window sample_text 100 10 0)
   \<and> window_chunk sample_text 100 (window_start 100 10 1) = window sample_text 100 10 1
   \<and> window_chunk sample_text 100 (window_start 100 10 2) = window sample_text 100 10 2
   \<and> chunk_text DocumentProcessor sample_text (Some 100) (Some 10)
       = Some [replicate 79 97 @ [46], replicate 100 98]"
proof -
  have h1: "(0::int) \<le> 10" and h2: "(10::int) < 100" by simp_all
  note t = chunk_text_windows_cover [OF h1 h2, of sample_text DocumentProcessor]
  from t have rec: "concat (map (\<lambda>k. take (nat (100 - 10)) (window sample_text 100 10 k))
         [0..<num_windows sample_text 100 10]) = sample_text" by blast
  have reach: "window_start 100 10 0 + 100 < int (length sample_text)"
    by (simp add: window_start_def sample_length)
  from t reach sample_cut
  have c0: "window_chunk sample_text 100 (window_start 100 10 0)
       = take (Suc 80) (window sample_text 100 10 0)" by blast
  from t sample_no_cut
  have c1: "window_chunk sample_text 100 (window_start 100 10 1) = window sample_text 100 10 1"
    by blast
  have "\<not> window_start 100 10 2 + 100 < int (length sample_text)"
    by (simp add: window_start_def sample_length)
  with t
  have c2: "window_chunk sample_text 100 (window_start 100 10 2) = window sample_text 100 10 2"
    by blast
  have s0: "strip (take (Suc 80) (window sample_text 100 10 0)) = replicate 79 97 @ [46]"
  proof -
    have "take (Suc 80) (window sample_text 100 10 0) = [32] @ replicate 79 97 @ [46]"
      by (simp add: sample_window_0)
    then show ?thesis by (simp only: sample_strip_0)
  qed
  have s1: "strip (window sample_text 100 10 1) = replicate 100 98"
    by (simp only: sample_window_1 sample_strip_1)
  have s2: "strip (window sample_text 100 10 2) = replicate 20 98"
    by (simp only: sample_window_2 sample_strip_2)
  from t have "chunk_text DocumentProcessor sample_text (Some 100) (Some 10) =
      Some (filter (\<lambda>chunk. 50 < length chunk)
        (map (\<lambda>k. strip (window_chunk sample_text 100 (window_start 100 10 k)))
           [0..<num_windows sample_text 100 10]))" by blast
  also have "map (\<lambda>k. strip (window_chunk sample_text 100 (window_start 100 10 k)))
           [0..<num_windows sample_text 100 10]
      = [replicate 79 97 @ [46], replicate 100 98, replicate 20 98]"
    unfolding sample_num_windows upt_3 list.map c0 c1 c2 s0 s1 s2 ..
  also have "filter (\<lambda>chunk. 50 < length chunk)
       [replicate 79 97 @ [46], replicate 100 98, replicate 20 (98::nat)]
      = [replicate 79 97 @ [46], replicate 100 98]" by simp
  finally have res: "chunk_text DocumentProcessor sample_text (Some 100) (Some 10)
       = Some [replicate 79 97 @ [46], replicate 100 98]" .
  from h1 h2 rec sample_num_windows reach sample_cut c0 c1 c2 res show ?thesis by blast
qed

text \<open>
  The claim as written puts every character of a non-empty text into a returned chunk.
  The text \<open>hello\<close> is not empty and no chunk is returned for it.
\<close>

theorem short_text_lost_counterexample:
  "pystr ''hello'' \<noteq> [] \<and> (0::int) \<le> 50 \<and> (50::int) < 500
   \<and> chunk_text DocumentProcessor (pystr ''hello'') (Some 500) (Some 50) = Some []"
  by (simp add: chunk_eval)

subsection \<open>C8: a text shorter than the window\<close>

text \<open>
  C8, as the code has it. For every text shorter than \<open>size\<close> and every
  \<open>(size, overlap)\<close> with \<open>0 \<le> overlap < size\<close> and \<open>overlap \<le> 51\<close>, \<open>chunk_text\<close>
  returns at most one chunk: the stripped text when that has more than 50 characters,
  and no chunk otherwise.
\<close>

theorem chunk_text_short_text:
  assumes "int (length text) < csize" and "0 \<le> ovl" and "ovl < csize" and "ovl \<le> 51"
  shows "chunk_text self text (Some csize) (Some ovl) =
           Some (if 50 < length (strip text) then [strip text] else [])"
proof (cases "text = []")
  case True
  have "strip [] = []" by (simp add: strip_def)
  then show ?thesis
    using True assms(3) by (simp add: chunk_text_windows num_windows_Nil)
next
  case False
  with assms(3) obtain m where m: "num_windows text csize ovl = Suc m"
    using num_windows_Suc by blast
  let ?f = "\<lambda>k. strip (window_chunk text csize (window_start csize ovl k))"
  have tail: "filter (\<lambda>chunk. 50 < length chunk) (map (\<lambda>k. ?f (Suc k)) [0..<m]) = []"
    using later_window_short [OF assms(1,2,4,3)] by (simp add: filter_empty_conv not_less)
  have "map ?f [0..<Suc m] = ?f 0 # map (\<lambda>k. ?f (Suc k)) [0..<m]"
    by (simp add: map_upt_Suc del: upt_Suc)
  then have "filter (\<lambda>chunk. 50 < length chunk) (map ?f [0..<Suc m]) =
        (if 50 < length (strip text) then [strip text] else [])"
    using tail by (simp add: first_window_whole [OF assms(1)])
  then show ?thesis
    using assms(3) by (simp add: chunk_text_windows m)
qed

theorem chunk_text_short_text_witness:
  "int (length (replicate 60 (97::nat))) < 500 \<and> (0::int) \<le> 50 \<and> (50::int) < 500
   \<and> (50::int) \<le> 51
   \<and> chunk_text DocumentProcessor (replicate 60 97) (Some 500) (Some 50)
       = Some [replicate 60 97]"
  using chunk_text_short_text [of "replicate 60 97" 500 50 DocumentProcessor]
  by (simp add: strip_def isspace_def)

text \<open>
  The claim as written allows any overlap below the size. With size 120 and overlap 60,
  a text of 119 letters gives two chunks: the text and its last 59 letters.
\<close>

theorem two_chunks_counterexample:
  "int (length (replicate 119 (97::nat))) < 120 \<and> (0::int) \<le> 60 \<and> (60::int) < 120
   \<and> chunk_text DocumentProcessor (replicate 119 97) (Some 120) (Some 60)
       = Some [replicate 119 97, replicate 59 97]"
  by (simp add: chunk_eval)

section \<open>Claims about the upload\<close>

subsection \<open>C1: point ids\<close>

text \<open>
  C1. For every document with url \<open>u\<close> and every chunk index \<open>i\<close>, the point id computed
  during upload, in the local path and in the Qdrant path, is the version-5 UUID of the
  string \<open>u#i\<close> over the URL namespace. The id sequence of an upload is therefore a
  function of the url and the number of chunks alone: uploading the same document again
  gives the same ids, and both paths give the same id to the same url and index. The
  points of the Qdrant path are the ones handed to the upsert.
\<close>

theorem point_ids_deterministic:
  "map point_id (embeddings_data (upload_chunks_local uuid5 self doc chunks embeddings)) =
     map point_id (embeddings_data self)
     @ map (\<lambda>i. uuid5 NAMESPACE_URL (url doc @ pystr ''#'' @ str_nat i))
         [0..<min (length chunks) (length embeddings)]
   \<and> map point_id (qdrant_points uuid5 doc chunks embeddings) =
       map (\<lambda>i. uuid5 NAMESPACE_URL (url doc @ pystr ''#'' @ str_nat i))
         [0..<min (length chunks) (length embeddings)]
   \<and> upload_chunks_qdrant api uuid5 (self\<lparr> client := Some c \<rparr>) doc chunks embeddings =
       (case upsert api VECTOR_COLLECTION_NAME (qdrant_points uuid5 doc chunks embeddings) c of
          Inl e \<Rightarrow> Inl e
        | Inr c' \<Rightarrow> Inr (self\<lparr> client := Some c' \<rparr>))"
  by (simp add: upload_chunks_local_map qdrant_points_ids upload_chunks_qdrant_def Let_def
      split: sum.splits)

subsection \<open>C10: payload invariant\<close>

text \<open>
  C10. For every document uploaded with a chunk list of length \<open>n\<close> and an embedding list
  of the same length, in the local path (the points appended to the buffer, which keeps
  what it held) and in the Qdrant path, the payloads satisfy the invariant: the
  \<open>chunk_index\<close> values are \<open>0\<close> to \<open>n - 1\<close> in chunk order, every point carries
  \<open>total_chunks = n\<close>, each content is the corresponding chunk, and every
  \<open>chunk_index\<close> is below \<open>total_chunks\<close>.
\<close>

theorem payload_invariant_holds:
  assumes "length embeddings = length chunks"
  shows "take (length (embeddings_data self))
           (embeddings_data (upload_chunks_local uuid5 self doc chunks embeddings))
           = embeddings_data self
       \<and> payload_invariant chunks
           (drop (length (embeddings_data self))
              (embeddings_data (upload_chunks_local uuid5 self doc chunks embeddings)))
       \<and> payload_invariant chunks (qdrant_points uuid5 doc chunks embeddings)"
  using qdrant_points_invariant [OF assms] by (simp add: upload_chunks_local_map)

theorem payload_invariant_holds_witness:
  "length [(), ()] = length [pystr ''first'', pystr ''second'']
   \<and> take (length (embeddings_data (local_fallback :: (unit, unit) manager)))
        (embeddings_data (upload_chunks_local (@) (local_fallback :: (unit, unit) manager) doc_a
           [pystr ''first'', pystr ''second''] [(), ()]))
        = embeddings_data (local_fallback :: (unit, unit) manager)
   \<and> payload_invariant [pystr ''first'', pystr ''second'']
        (drop (length (embeddings_data (local_fallback :: (unit, unit) manager)))
           (embeddings_data (upload_chunks_local (@) (local_fallback :: (unit, unit) manager) doc_a
              [pystr ''first'', pystr ''second''] [(), ()])))
   \<and> payload_invariant [pystr ''first'', pystr ''second'']
        (qdrant_points (@) doc_a [pystr ''first'', pystr ''second''] [(), ()])"
  using payload_invariant_holds [of "[(), ()]" "[pystr ''first'', pystr ''second'']"
      "local_fallback :: (unit, unit) manager" "(@)" doc_a]
  by simp

section \<open>Claims about the ingestion run\<close>

subsection \<open>C3: a failing embedding call\<close>

text \<open>
  C3, as the code has it. For every corpus processed in input order, if the documents
  before some document are processed and the embedding call raises for the chunks of
  that document, the exception leaves the loop and \<open>main\<close>: the run ends there with that
  exception, the manager holds what the earlier documents uploaded, and no later
  document is processed.
\<close>

theorem embedding_failure_ends_run:
  assumes "process_documents api uuid5 encode proc before mgr count
             = Some (Completed mgr' count')"
      and "chunk_text proc (content doc) None None = Some chunks"
      and "chunks \<noteq> []"
      and "encode chunks = Inl e"
  shows "process_documents api uuid5 encode proc (before @ doc # rest) mgr count
           = Some (Uncaught e mgr')"
  using assms by (simp add: process_documents_append create_embeddings_def)

theorem embedding_failure_ends_run_witness:
  "process_documents unreachable_api (@) (encode_failing_on [content doc_a]) DocumentProcessor
       [doc_b] local_fallback 0
     = Some (Completed
         (upload_chunks_local (@) local_fallback doc_b [content doc_b] [()]) 1)
   \<and> chunk_text DocumentProcessor (content doc_a) None None = Some [content doc_a]
   \<and> [content doc_a] \<noteq> []
   \<and> encode_failing_on [content doc_a] [content doc_a] = Inl model_unavailable
   \<and> process_documents unreachable_api (@) (encode_failing_on [content doc_a]) DocumentProcessor
       ([doc_b] @ doc_a # [doc_b]) local_fallback 0
     = Some (Uncaught model_unavailable
         (upload_chunks_local (@) local_fallback doc_b [content doc_b] [()]))"
proof -
  have 1: "process_documents unreachable_api (@) (encode_failing_on [content doc_a])
       DocumentProcessor [doc_b] local_fallback 0
     = Some (Completed
         (upload_chunks_local (@) local_fallback doc_b [content doc_b] [()]) 1)"
    by (simp add: run_eval)
  have 2: "chunk_text DocumentProcessor (content doc_a) None None = Some [content doc_a]"
    by (simp add: run_eval)
  have 3: "[content doc_a] \<noteq> []" by simp
  have 4: "encode_failing_on [content doc_a] [content doc_a] = Inl model_unavailable"
    by (simp add: encode_failing_on_def)
  from embedding_failure_ends_run [OF 1 2 3 4, of "[doc_b]"] 1 2 3 4 show ?thesis by blast
qed

text \<open>
  The claim as written lets the run continue with the next document. With two documents,
  an embedding model that fails on the first one only, and the local storage, the run
  ends with the exception and an empty buffer: the second document, whose embedding
  would succeed, is never reached.
\<close>

theorem one_failure_ends_run_counterexample:
  "main unreachable_api (@) (encode_failing_on [content doc_a]) (Inl refused)
       \<lparr> data_file = Some [doc_a, doc_b], storage_file = None \<rparr>
     = Some (\<lparr> data_file = Some [doc_a, doc_b], storage_file = None \<rparr>,
             Uncaught model_unavailable local_fallback)
   \<and> encode_failing_on [content doc_a] [content doc_b] = Inr [()]"
  by (simp add: run_eval)

subsection \<open>C6: persisting the local storage\<close>

text \<open>
  C6, evaluated on the code. With Qdrant unreachable the manager is in local storage
  mode; \<open>main\<close> on a corpus of one document runs to its end with one point in the
  buffer and leaves the storage file as it was (absent): \<open>main\<close> contains no call of
  \<open>save_local_storage\<close>. Called on the final manager, \<open>save_local_storage\<close> would write
  the buffered points.
\<close>

theorem main_never_saves_local_storage:
  "main unreachable_api (@) (encode_failing_on []) (Inl refused)
       \<lparr> data_file = Some [doc_a], storage_file = None \<rparr>
     = Some (\<lparr> data_file = Some [doc_a], storage_file = None \<rparr>,
             Completed (upload_chunks_local (@) local_fallback doc_a [content doc_a] [()]) 1)
   \<and> length (embeddings_data
         (upload_chunks_local (@) (local_fallback :: (unit, unit) manager) doc_a
            [content doc_a] [()])) = 1
   \<and> storage_file (save_local_storage
         (upload_chunks_local (@) (local_fallback :: (unit, unit) manager) doc_a
            [content doc_a] [()])
         \<lparr> data_file = Some [doc_a], storage_file = None \<rparr>)
       = Some (embeddings_data
           (upload_chunks_local (@) (local_fallback :: (unit, unit) manager) doc_a
              [content doc_a] [()]))"
  by (simp add: run_eval save_local_storage_def)

section \<open>Claims about the query application\<close>

subsection \<open>C5: generating without an API key\<close>

text \<open>
  C5, evaluated on the code. When no valid Groq API key is present at initialization (the
  variable is unset, empty, or the placeholder), whatever the other clients do, the
  application object has no attribute \<open>llm\<close>, and
  \<open>generate_response\<close> raises \<open>AttributeError\<close> at its first statement for every query
  and every list of contexts, instead of returning the configuration message.
\<close>

theorem generate_response_raises_without_key:
  "generate_response invoke
     (fst (DisasterRAGApp load_model make_qdrant make_llm qdrant_api_key None)) query context
   = Inl (AttributeError (pystr ''llm''))
   \<and> generate_response invoke
     (fst (DisasterRAGApp load_model make_qdrant make_llm qdrant_api_key (Some []))) query context
   = Inl (AttributeError (pystr ''llm''))
   \<and> generate_response invoke
     (fst (DisasterRAGApp load_model make_qdrant make_llm qdrant_api_key
        (Some (pystr ''your_groq_api_key_here'')))) query context
   = Inl (AttributeError (pystr ''llm''))"
  by (simp add: generate_response_def DisasterRAGApp_def setup_clients_no_key truthy_def)

subsection \<open>C4: a failure during retrieval\<close>

text \<open>
  C4, as the code has it. For every non-empty query, if embedding the query or searching
  the vector store raises, \<open>retrieve_context\<close> catches the exception, writes an error
  message to the page and returns the empty list; the query handling then takes the
  branch of an empty result: it shows the warning that no relevant information was
  found, calls no LLM and shows no answer.
\<close>

theorem retrieval_failure_returns_empty:
  assumes "embedding_model self = Obj m" and "qdrant_client self = Obj c" and "query \<noteq> []"
      and "encode m query = Inl e
           \<or> (\<exists>v. encode m query = Inr v \<and> search c v RETRIEVER_K = Inl e)"
  shows "retrieve_context encode search self query RETRIEVER_K = ([], [Error_retrieving e])
       \<and> handle_query encode search invoke self query
           = ([Error_retrieving e, Warning_no_information], None)"
  using assms by (auto simp: retrieve_context_def handle_query_def)

theorem retrieval_failure_returns_empty_witness:
  "embedding_model ready_app = Obj () \<and> qdrant_client ready_app = Obj ()
   \<and> pystr ''flood'' \<noteq> []
   \<and> encode_ok () (pystr ''flood'') = Inr () \<and> search_down () () RETRIEVER_K = Inl refused
   \<and> retrieve_context encode_ok search_down ready_app (pystr ''flood'') RETRIEVER_K
       = ([], [Error_retrieving refused])
   \<and> handle_query encode_ok search_down invoke_echo ready_app (pystr ''flood'')
       = ([Error_retrieving refused, Warning_no_information], None)"
proof -
  have 1: "embedding_model ready_app = Obj ()" by (simp add: ready_app_def)
  have 2: "qdrant_client ready_app = Obj ()" by (simp add: ready_app_def)
  have 3: "pystr ''flood'' \<noteq> []" by (simp add: pystr_def)
  have 4: "encode_ok () (pystr ''flood'') = Inr ()" by (simp add: encode_ok_def)
  have 5: "search_down () () RETRIEVER_K = Inl refused" by (simp add: search_down_def)
  from 4 5 have 6: "encode_ok () (pystr ''flood'') = Inl refused
      \<or> (\<exists>v. encode_ok () (pystr ''flood'') = Inr v \<and> search_down () v RETRIEVER_K = Inl refused)"
    by simp
  from retrieval_failure_returns_empty
      [where encode = encode_ok and search = search_down and invoke = invoke_echo, OF 1 2 3 6]
    1 2 3 4 5
  show ?thesis by blast
qed

text \<open>
  The claim as written makes a failure the query's answer and never an empty result.
  With a search that fails, \<open>retrieve_context\<close> returns the empty list, as it does with a
  search that finds nothing, and the page shows the same warning and no answer; the one
  difference is the error message written by the handler.
\<close>

theorem failure_looks_empty_counterexample:
  "pystr ''flood'' \<noteq> []
   \<and> search_down () () RETRIEVER_K = Inl refused
   \<and> fst (retrieve_context encode_ok search_down ready_app (pystr ''flood'') RETRIEVER_K) = []
   \<and> fst (retrieve_context encode_ok search_nothing ready_app (pystr ''flood'') RETRIEVER_K) = []
   \<and> handle_query encode_ok search_down invoke_echo ready_app (pystr ''flood'')
       = ([Error_retrieving refused, Warning_no_information], None)
   \<and> handle_query encode_ok search_nothing invoke_echo ready_app (pystr ''flood'')
       = ([Warning_no_information], None)"
  by (simp add: app_eval)

end
